theory Spec2Isabelle
  imports Complex_Main
begin

section \<open>Strings and numbers as the Go code uses them\<close>

text \<open>
  Go strings are byte sequences; they are modelled as \<open>string\<close> (a list of 8-bit
  characters).  The \<open>float32\<close> values of the slider tracker are idealised as exact
  rationals: \<open>float32(number) / 1023.0\<close> is the fraction \<open>number / 1023\<close>, and the
  comparison with the sentinel \<open>-1.0\<close> is equality of rationals.  Rounding of the
  division is not modelled.
\<close>

type_synonym float32 = rat

definition CR :: char where "CR = CHR 0x0D"
definition LF :: char where "LF = CHR 0x0A"

definition isDigit :: "char \<Rightarrow> bool" where
  "isDigit c = (48 \<le> (of_char c :: nat) \<and> (of_char c :: nat) \<le> 57)"

text \<open>
  \<open>strings.TrimSpace\<close> removes the leading and trailing characters for which
  \<open>unicode.IsSpace\<close> holds.  \<open>isSpace\<close> is the ASCII part (tab, line feed, vertical
  tab, form feed, carriage return, space); \<open>unicodeSpaces\<close> lists the UTF-8 encodings
  of the others: U+0085, U+00A0, U+1680, U+2000 to U+200A, U+2028, U+2029, U+202F,
  U+205F and U+3000.  A byte that does not start or end one of these sequences is not
  white space, as in Go, where an invalid encoding decodes to U+FFFD.
\<close>

definition isSpace :: "char \<Rightarrow> bool" where
  "isSpace c = ((of_char c :: nat) \<in> {9, 10, 11, 12, 13, 32})"

definition unicodeSpaces :: "string list" where
  "unicodeSpaces =
     [[CHR 0xC2, CHR 0x85], [CHR 0xC2, CHR 0xA0], [CHR 0xE1, CHR 0x9A, CHR 0x80],
      [CHR 0xE2, CHR 0x80, CHR 0x80], [CHR 0xE2, CHR 0x80, CHR 0x81],
      [CHR 0xE2, CHR 0x80, CHR 0x82], [CHR 0xE2, CHR 0x80, CHR 0x83],
      [CHR 0xE2, CHR 0x80, CHR 0x84], [CHR 0xE2, CHR 0x80, CHR 0x85],
      [CHR 0xE2, CHR 0x80, CHR 0x86], [CHR 0xE2, CHR 0x80, CHR 0x87],
      [CHR 0xE2, CHR 0x80, CHR 0x88], [CHR 0xE2, CHR 0x80, CHR 0x89],
      [CHR 0xE2, CHR 0x80, CHR 0x8A], [CHR 0xE2, CHR 0x80, CHR 0xA8],
      [CHR 0xE2, CHR 0x80, CHR 0xA9], [CHR 0xE2, CHR 0x80, CHR 0xAF],
      [CHR 0xE2, CHR 0x81, CHR 0x9F], [CHR 0xE3, CHR 0x80, CHR 0x80]]"

text \<open>The number of bytes of the white-space character at the start, or at the end,
  of a string; 0 if there is none.\<close>

definition leadingSpace :: "string \<Rightarrow> nat" where
  "leadingSpace s =
     (if s \<noteq> [] \<and> isSpace (hd s) then 1
      else if take 2 s \<in> set unicodeSpaces then 2
      else if take 3 s \<in> set unicodeSpaces then 3
      else 0)"

definition trailingSpace :: "string \<Rightarrow> nat" where
  "trailingSpace s =
     (if s \<noteq> [] \<and> isSpace (last s) then 1
      else if drop (length s - 2) s \<in> set unicodeSpaces then 2
      else if drop (length s - 3) s \<in> set unicodeSpaces then 3
      else 0)"

function TrimLeft :: "string \<Rightarrow> string" where
  "TrimLeft s = (if 0 < leadingSpace s then TrimLeft (drop (leadingSpace s) s) else s)"
  by pat_completeness auto
termination
proof (relation "measure length")
  fix s :: string
  assume w: "0 < leadingSpace s"
  then have "s \<noteq> []"
    by (auto simp add: leadingSpace_def unicodeSpaces_def split: if_splits)
  with w show "(drop (leadingSpace s) s, s) \<in> measure length" by simp
qed simp

function TrimRight :: "string \<Rightarrow> string" where
  "TrimRight s =
     (if 0 < trailingSpace s then TrimRight (take (length s - trailingSpace s) s) else s)"
  by pat_completeness auto
termination
proof (relation "measure length")
  fix s :: string
  assume w: "0 < trailingSpace s"
  then have "s \<noteq> []"
    by (auto simp add: trailingSpace_def unicodeSpaces_def split: if_splits)
  with w show "(take (length s - trailingSpace s) s, s) \<in> measure length" by simp
qed simp

declare TrimLeft.simps [simp del]
declare TrimRight.simps [simp del]

definition TrimSpace :: "string \<Rightarrow> string" where
  "TrimSpace s = TrimRight (TrimLeft s)"

definition HasPrefix :: "string \<Rightarrow> string \<Rightarrow> bool" where
  "HasPrefix s p = (take (length p) s = p)"

definition TrimPrefix :: "string \<Rightarrow> string \<Rightarrow> string" where
  "TrimPrefix s p = (if HasPrefix s p then drop (length p) s else s)"

text \<open>\<open>strings.Split\<close> with a one-byte separator: the result always has at least
  one field.\<close>

fun Split :: "char \<Rightarrow> string \<Rightarrow> string list" where
  "Split sep [] = [[]]"
| "Split sep (c # cs) =
     (if c = sep then [] # Split sep cs
      else (case Split sep cs of
              [] \<Rightarrow> [[c]]
            | w # ws \<Rightarrow> (c # w) # ws))"

definition digitsValue :: "string \<Rightarrow> int" where
  "digitsValue ds = foldl (\<lambda>acc c. 10 * acc + (int (of_char c) - 48)) 0 ds"

text \<open>
  \<open>strconv.Atoi\<close> on a 64-bit platform, as the caller uses it
  (\<open>number, _ := strconv.Atoi(stringValue)\<close>, the error is dropped): an optional sign
  followed by one or more decimal digits; on a syntax error the value is 0, on a range
  error it is the nearest bound of \<open>int64\<close>.
\<close>

definition Atoi :: "string \<Rightarrow> int" where
  "Atoi s =
     (let neg = (s \<noteq> [] \<and> hd s = CHR ''-'');
          ds = (if s \<noteq> [] \<and> (hd s = CHR ''-'' \<or> hd s = CHR ''+'') then tl s else s)
      in if ds = [] \<or> \<not> list_all isDigit ds then 0
         else if neg then max (- (2 ^ 63)) (- digitsValue ds)
         else min (2 ^ 63 - 1) (digitsValue ds))"

section \<open>The serial line handler (serial.go)\<close>

record SliderMoveEvent =
  SliderID :: int
  PercentValue :: float32

datatype TrayState = TrayNormal | TrayError

text \<open>
  The configuration values that the tracker and the session map read.  The slider
  mapping (\<open>sliderMap\<close>, a Go map from slider index to targets) is an association
  list: \<open>get\<close> is \<open>map_of\<close>, and \<open>iterate\<close> visits the entries in list order, which
  stands for whichever order Go's map iteration takes.
\<close>

record config =
  InvertSliders :: bool
  NoiseReductionLevel :: string
  SliderMapping :: "(int \<times> string list) list"

text \<open>
  The fields of \<open>SerialIO\<close> that line handling reads and writes.  A consumer channel
  is the list of events waiting in its buffer; the buffer holds 100 events.
\<close>

record SerialIO =
  lastKnownNumSliders :: int
  currentSliderPercentValues :: "float32 list"
  sliderMoveConsumers :: "SliderMoveEvent list list"

text \<open>\<open>expectedLinePattern = ^\d{1,4}(\|\d{1,4})*\r\n$\<close>: one to four digits, any
  number of further \<open>|\<close>-separated groups of one to four digits, then CR LF at the end
  of the text.\<close>

definition digitGroups :: "string \<Rightarrow> bool" where
  "digitGroups body =
     list_all (\<lambda>f. 1 \<le> length f \<and> length f \<le> 4 \<and> list_all isDigit f)
       (Split (CHR ''|'') body)"

definition expectedLinePattern :: "string \<Rightarrow> bool" where
  "expectedLinePattern s =
     (2 \<le> length s \<and> drop (length s - 2) s = [CR, LF]
      \<and> digitGroups (take (length s - 2) s))"

text \<open>The non-blocking send of \<open>processSliderData\<close>: an event is dropped when the
  buffer is full.\<close>

definition send :: "SliderMoveEvent list \<Rightarrow> SliderMoveEvent \<Rightarrow> SliderMoveEvent list" where
  "send ch e = (if length ch < 100 then ch @ [e] else ch)"

definition deliver ::
  "SliderMoveEvent list list \<Rightarrow> SliderMoveEvent list \<Rightarrow> SliderMoveEvent list list" where
  "deliver consumers moveEvents = map (\<lambda>ch. foldl send ch moveEvents) consumers"

text \<open>
  The loop over the fields of a slider payload.  \<open>Discarded\<close> is the early return on a
  first field above 1023; \<open>IndexPanic\<close> is Go's run-time panic on an index outside
  \<open>currentSliderPercentValues\<close>.  The functions \<open>util.NormalizeScalar\<close> and
  \<open>util.SignificantlyDifferent\<close> are parameters \<open>nz\<close> and \<open>sd\<close>.
\<close>

datatype loop_result =
    Completed "float32 list" "SliderMoveEvent list"
  | Discarded
  | IndexPanic

fun sliderLoop ::
  "(float32 \<Rightarrow> float32) \<Rightarrow> (float32 \<Rightarrow> float32 \<Rightarrow> string \<Rightarrow> bool) \<Rightarrow> config
   \<Rightarrow> nat \<Rightarrow> string list \<Rightarrow> float32 list \<Rightarrow> SliderMoveEvent list \<Rightarrow> loop_result" where
  "sliderLoop nz sd cfg sliderIdx [] cur moveEvents = Completed cur moveEvents"
| "sliderLoop nz sd cfg sliderIdx (stringValue # rest) cur moveEvents =
     (let number = Atoi stringValue in
      if sliderIdx = 0 \<and> number > 1023 then Discarded
      else
        let dirtyFloat = (of_int number :: float32) / 1023;
            normalizedScalar =
              (if InvertSliders cfg then 1 - nz dirtyFloat else nz dirtyFloat)
        in if length cur \<le> sliderIdx then IndexPanic
           else if cur ! sliderIdx = - 1
                   \<or> sd (cur ! sliderIdx) normalizedScalar (NoiseReductionLevel cfg)
           then sliderLoop nz sd cfg (Suc sliderIdx) rest
                  (cur[sliderIdx := normalizedScalar])
                  (moveEvents @ [\<lparr>SliderID = int sliderIdx, PercentValue = normalizedScalar\<rparr>])
           else sliderLoop nz sd cfg (Suc sliderIdx) rest cur moveEvents)"

text \<open>\<open>processSliderData\<close> returns the new tracker state and the move events of the
  frame, or \<open>None\<close> when the loop panics.\<close>

definition resetIfCountChanged :: "SerialIO \<Rightarrow> nat \<Rightarrow> SerialIO" where
  "resetIfCountChanged sio numSliders =
     (if int numSliders \<noteq> lastKnownNumSliders sio
      then sio\<lparr>lastKnownNumSliders := int numSliders,
               currentSliderPercentValues := replicate numSliders (- 1)\<rparr>
      else sio)"

definition processSliderData ::
  "(float32 \<Rightarrow> float32) \<Rightarrow> (float32 \<Rightarrow> float32 \<Rightarrow> string \<Rightarrow> bool) \<Rightarrow> config
   \<Rightarrow> SerialIO \<Rightarrow> string \<Rightarrow> (SerialIO \<times> SliderMoveEvent list) option" where
  "processSliderData nz sd cfg sio sliderData =
     (let splitLine = Split (CHR ''|'') sliderData;
          sio1 = resetIfCountChanged sio (length splitLine)
      in case sliderLoop nz sd cfg 0 splitLine (currentSliderPercentValues sio1) [] of
           Discarded \<Rightarrow> Some (sio1, [])
         | IndexPanic \<Rightarrow> None
         | Completed cur moveEvents \<Rightarrow>
             Some (sio1\<lparr>currentSliderPercentValues := cur,
                        sliderMoveConsumers := deliver (sliderMoveConsumers sio1) moveEvents\<rparr>,
                   moveEvents))"

text \<open>
  \<open>handleLine\<close>.  Its visible effects are tray-icon updates and the move events of
  \<open>processSliderData\<close>; logging is left out.  \<open>handleCommandResponse\<close> only logs.
\<close>

datatype effect = SetTrayIcon TrayState | SliderMoved SliderMoveEvent

definition handleLine ::
  "(float32 \<Rightarrow> float32) \<Rightarrow> (float32 \<Rightarrow> float32 \<Rightarrow> string \<Rightarrow> bool) \<Rightarrow> config
   \<Rightarrow> SerialIO \<Rightarrow> string \<Rightarrow> (SerialIO \<times> effect list) option" where
  "handleLine nz sd cfg sio rawLine =
     (let line = TrimSpace rawLine;
          parts = Split (CHR '':'') line;
          slidersPath = (\<lambda>sliderData.
             map_option (\<lambda>(sio', evs). (sio', map SliderMoved evs))
               (processSliderData nz sd cfg sio sliderData));
          fallback =
            (if HasPrefix line ''status:'' then
               (let status = TrimSpace (TrimPrefix line ''status:'') in
                if status = ''ok'' \<or> status = ''warning''
                then Some (sio, [SetTrayIcon TrayNormal])
                else Some (sio, [SetTrayIcon TrayError]))
             else if expectedLinePattern line then slidersPath line
             else Some (sio, []))
      in if HasPrefix line ''deej:'' then
           (if length parts < 3 then Some (sio, [])
            else if parts ! 2 = ''startup'' then Some (sio, [SetTrayIcon TrayNormal])
            else if parts ! 2 = ''sliders'' then
              (if 4 \<le> length parts then slidersPath (parts ! 3) else Some (sio, []))
            else if parts ! 2 = ''response'' then Some (sio, [])
            else fallback)
         else fallback)"


subsection \<open>The helpers of package util\<close>

text \<open>
  Modelled from the spec: \<open>util.NormalizeScalar\<close> is called by \<open>processSliderData\<close>
  but package util is not among the sources.  The specification describes it as "a
  deadzone/normalization function that snaps values within a small epsilon of 0 or 1
  to exactly 0 or 1", for the raw value \<open>r / 1023\<close> of a reading \<open>r\<close> between 0 and
  1023.  The epsilon is the parameter \<open>eps\<close>.  A value that is not snapped is returned
  unchanged; on raw values outside 0 to 1 the specification is silent, and the
  statements below apply this definition to raw values between 0 and 1 only.
\<close>

definition NormalizeScalar :: "float32 \<Rightarrow> float32 \<Rightarrow> float32" where
  "NormalizeScalar eps v =
     (if \<bar>v\<bar> \<le> eps then 0 else if \<bar>v - 1\<bar> \<le> eps then 1 else v)"

text \<open>
  Modelled from the spec: \<open>util.SignificantlyDifferent\<close> is likewise not among the
  sources.  The
  specification's rule is "emit a move event for index i iff the slot is unset OR
  \<open>|normalized - current[i]| > noiseReductionThreshold\<close>", the threshold being chosen
  by the configured sensitivity level; \<open>threshold\<close> maps the level to its value.
\<close>

definition SignificantlyDifferent ::
  "(string \<Rightarrow> float32) \<Rightarrow> float32 \<Rightarrow> float32 \<Rightarrow> string \<Rightarrow> bool" where
  "SignificantlyDifferent threshold old new level = (threshold level < \<bar>new - old\<bar>)"

subsection \<open>Notions used to state the properties of the tracker\<close>

text \<open>The normalized value that the loop computes for one field of the payload.\<close>

definition readingScalar :: "(float32 \<Rightarrow> float32) \<Rightarrow> config \<Rightarrow> string \<Rightarrow> float32" where
  "readingScalar nz cfg stringValue =
     (let dirtyFloat = (of_int (Atoi stringValue) :: float32) / 1023
      in if InvertSliders cfg then 1 - nz dirtyFloat else nz dirtyFloat)"

text \<open>The test that decides whether a slot emits an event.\<close>

definition slotChanged ::
  "(float32 \<Rightarrow> float32 \<Rightarrow> string \<Rightarrow> bool) \<Rightarrow> config \<Rightarrow> float32 \<Rightarrow> float32 \<Rightarrow> bool" where
  "slotChanged sd cfg old new = (old = - 1 \<or> sd old new (NoiseReductionLevel cfg))"

text \<open>The event for index \<open>i\<close> of a payload with fields \<open>flds\<close>.\<close>

definition moveEvent ::
  "(float32 \<Rightarrow> float32) \<Rightarrow> config \<Rightarrow> string list \<Rightarrow> nat \<Rightarrow> SliderMoveEvent" where
  "moveEvent nz cfg flds i =
     \<lparr>SliderID = int i, PercentValue = readingScalar nz cfg (flds ! i)\<rparr>"


text \<open>The state that \<open>NewSerialIO\<close> builds, and \<open>SubscribeToSliderMoveEvents\<close>.\<close>

definition NewSerialIO :: SerialIO where
  "NewSerialIO = \<lparr>lastKnownNumSliders = 0, currentSliderPercentValues = [],
                  sliderMoveConsumers = []\<rparr>"

definition SubscribeToSliderMoveEvents :: "SerialIO \<Rightarrow> SerialIO" where
  "SubscribeToSliderMoveEvents sio =
     sio\<lparr>sliderMoveConsumers := sliderMoveConsumers sio @ [[]]\<rparr>"

text \<open>Concrete values for the examples below.\<close>

definition defaultConfig :: config where
  "defaultConfig = \<lparr>InvertSliders = False, NoiseReductionLevel = ''default'',
                    SliderMapping = []\<rparr>"

definition invertedConfig :: config where
  "invertedConfig = \<lparr>InvertSliders = True, NoiseReductionLevel = ''default'',
                     SliderMapping = []\<rparr>"


definition exampleThreshold :: "string \<Rightarrow> float32" where
  "exampleThreshold level =
     (if level = ''high'' then 35 / 1000 else if level = ''low'' then 15 / 1000 else 25 / 1000)"

section \<open>The session map (session_map.go)\<close>

text \<open>
  A \<open>Session\<close> is an opaque handle of the audio backend; the model keeps the identity
  of the handle and the string that \<open>Key()\<close> returns.
\<close>

record Session =
  handle :: nat
  Key :: string

text \<open>
  The fields of \<open>sessionMap\<close>.  The Go map \<open>m\<close> is an association list with one entry
  per key, in the order in which \<open>clear\<close> visits it; \<open>lastSessionRefresh\<close> is a time in
  nanoseconds.
\<close>

record sessionMap =
  m :: "(string \<times> Session list) list"
  lastSessionRefresh :: int
  unmappedSessions :: "Session list"

definition masterSessionName :: string where "masterSessionName = ''master''"
definition systemSessionName :: string where "systemSessionName = ''system''"
definition inputSessionName :: string where "inputSessionName = ''mic''"
definition specialTargetTransformPrefix :: string where
  "specialTargetTransformPrefix = ''deej.''"
definition specialTargetCurrentWindow :: string where
  "specialTargetCurrentWindow = ''current''"
definition specialTargetAllUnmapped :: string where
  "specialTargetAllUnmapped = ''unmapped''"

definition minTimeBetweenSessionRefreshes :: int where
  "minTimeBetweenSessionRefreshes = 5 * 1000000000"


definition toLowerChar :: "char \<Rightarrow> char" where
  "toLowerChar c =
     (if 65 \<le> (of_char c :: nat) \<and> (of_char c :: nat) \<le> 90
      then char_of ((of_char c :: nat) + 32) else c)"

definition ToLower :: "string \<Rightarrow> string" where
  "ToLower s = map toLowerChar s"

text \<open>\<open>funk.UniqString\<close>: the first occurrence of every string, in order.\<close>

definition UniqString :: "string list \<Rightarrow> string list" where
  "UniqString xs = rev (remdups (rev xs))"

text \<open>
  \<open>deviceSessionKeyPattern = ^.+ \(.+\)$\<close>: at least one character, a space, an
  opening parenthesis, at least one character, and a closing parenthesis at the end;
  the dot does not match a line feed.
\<close>

fun parenthetical :: "string \<Rightarrow> bool" where
  "parenthetical (a # b # rest) =
     ((a = CHR '' '' \<and> b = CHR ''('' \<and> 2 \<le> length rest \<and> last rest = CHR '')'')
      \<or> parenthetical (b # rest))"
| "parenthetical [a] = False"
| "parenthetical [] = False"

definition deviceSessionKeyPattern :: "string \<Rightarrow> bool" where
  "deviceSessionKeyPattern s =
     (LF \<notin> set s \<and> (case s of [] \<Rightarrow> False | c # rest \<Rightarrow> parenthetical rest))"

definition targetHasSpecialTransform :: "string \<Rightarrow> bool" where
  "targetHasSpecialTransform target = HasPrefix target specialTargetTransformPrefix"

text \<open>
  \<open>applyTargetTransform\<close> and \<open>resolveTarget\<close>.  The parameter \<open>currentWindow\<close> is the
  answer of \<open>util.GetCurrentWindowProcessNames\<close>, \<open>None\<close> when it reports an error.
\<close>

definition applyTargetTransform ::
  "string list option \<Rightarrow> sessionMap \<Rightarrow> string \<Rightarrow> string list" where
  "applyTargetTransform currentWindow sm specialTargetName =
     (if specialTargetName = specialTargetCurrentWindow then
        (case currentWindow of
           None \<Rightarrow> []
         | Some currentWindowProcessNames \<Rightarrow>
             UniqString (map ToLower currentWindowProcessNames))
      else if specialTargetName = specialTargetAllUnmapped then
        map Key (unmappedSessions sm)
      else [])"

definition resolveTarget ::
  "string list option \<Rightarrow> sessionMap \<Rightarrow> string \<Rightarrow> string list" where
  "resolveTarget currentWindow sm target =
     (let target = ToLower target in
      if targetHasSpecialTransform target
      then applyTargetTransform currentWindow sm
             (TrimPrefix target specialTargetTransformPrefix)
      else [target])"

text \<open>
  \<open>sessionMapped\<close>.  The callback given to \<open>iterate\<close> walks the targets of one slider
  and returns at the first match; \<open>iterate\<close> then goes on with the next slider.
  \<open>resolveTarget(target)[0]\<close> panics on an empty result, which is \<open>None\<close> here.
\<close>

fun targetsMatch ::
  "string list option \<Rightarrow> sessionMap \<Rightarrow> Session \<Rightarrow> string list \<Rightarrow> bool option" where
  "targetsMatch currentWindow sm session [] = Some False"
| "targetsMatch currentWindow sm session (target # rest) =
     (if targetHasSpecialTransform target
      then targetsMatch currentWindow sm session rest
      else (case resolveTarget currentWindow sm target of
              [] \<Rightarrow> None
            | resolved # _ \<Rightarrow>
                if resolved = Key session then Some True
                else targetsMatch currentWindow sm session rest))"

fun iterateMapping ::
  "string list option \<Rightarrow> sessionMap \<Rightarrow> Session \<Rightarrow> (int \<times> string list) list
   \<Rightarrow> bool \<Rightarrow> bool option" where
  "iterateMapping currentWindow sm session [] matchFound = Some matchFound"
| "iterateMapping currentWindow sm session ((sliderIdx, targets) # rest) matchFound =
     (case targetsMatch currentWindow sm session targets of
        None \<Rightarrow> None
      | Some found \<Rightarrow>
          iterateMapping currentWindow sm session rest (matchFound \<or> found))"

definition sessionMapped ::
  "config \<Rightarrow> string list option \<Rightarrow> sessionMap \<Rightarrow> Session \<Rightarrow> bool option" where
  "sessionMapped cfg currentWindow sm session =
     (if Key session \<in> set [masterSessionName, systemSessionName, inputSessionName]
      then Some True
      else if deviceSessionKeyPattern (Key session) then Some True
      else iterateMapping currentWindow sm session (SliderMapping cfg) False)"

text \<open>\<open>add\<close>, \<open>get\<close> and \<open>clear\<close>; \<open>clear\<close> also returns the sessions it released.\<close>

definition add :: "sessionMap \<Rightarrow> Session \<Rightarrow> sessionMap" where
  "add sm session =
     (case map_of (m sm) (Key session) of
        None \<Rightarrow> sm\<lparr>m := m sm @ [(Key session, [session])]\<rparr>
      | Some existing \<Rightarrow>
          sm\<lparr>m := map (\<lambda>(k, ss). if k = Key session then (k, ss @ [session]) else (k, ss))
                      (m sm)\<rparr>)"

definition get :: "sessionMap \<Rightarrow> string \<Rightarrow> Session list option" where
  "get sm key = map_of (m sm) key"

definition clear :: "sessionMap \<Rightarrow> sessionMap \<times> Session list" where
  "clear sm = (sm\<lparr>m := []\<rparr>, concat (map snd (m sm)))"

text \<open>
  \<open>getAndAddSessions\<close>.  \<open>enumerated\<close> is the answer of
  \<open>sessionFinder.GetAllSessions()\<close>, an error message or the sessions; \<open>now\<close> is the
  reading of the clock.  The result is \<open>None\<close> if \<open>sessionMapped\<close> panics, otherwise the
  new map and the error that the function returns.
\<close>

fun addSessions ::
  "config \<Rightarrow> string list option \<Rightarrow> sessionMap \<Rightarrow> Session list \<Rightarrow> sessionMap option" where
  "addSessions cfg currentWindow sm [] = Some sm"
| "addSessions cfg currentWindow sm (session # rest) =
     (let sm1 = add sm session in
      case sessionMapped cfg currentWindow sm1 session of
        None \<Rightarrow> None
      | Some mapped \<Rightarrow>
          addSessions cfg currentWindow
            (if \<not> mapped
             then sm1\<lparr>unmappedSessions := unmappedSessions sm1 @ [session]\<rparr>
             else sm1)
            rest)"

definition getAndAddSessions ::
  "config \<Rightarrow> string list option \<Rightarrow> int \<Rightarrow> string + Session list \<Rightarrow> sessionMap
   \<Rightarrow> (sessionMap \<times> string option) option" where
  "getAndAddSessions cfg currentWindow now enumerated sm =
     (let sm1 = sm\<lparr>lastSessionRefresh := now, unmappedSessions := []\<rparr> in
      case enumerated of
        Inl err \<Rightarrow> Some (sm1, Some (''get sessions from SessionFinder: '' @ err))
      | Inr sessions \<Rightarrow>
          map_option (\<lambda>sm2. (sm2, None)) (addSessions cfg currentWindow sm1 sessions))"

text \<open>
  The calls that reach the audio backend, and the delayed forced refresh that a failed
  \<open>SetVolume\<close> starts (\<open>time.Sleep(100 * time.Millisecond); m.refreshSessions(true)\<close>).
\<close>

datatype backend_call =
    Release Session
  | GetAllSessions
  | SetVolume Session float32
  | DelayedRefresh nat bool

text \<open>
  \<open>refreshSessions\<close>.  \<open>now\<close> is the clock at the rate-limit test, \<open>now'\<close> the clock
  inside \<open>getAndAddSessions\<close>.  An error of \<open>getAndAddSessions\<close> is logged and dropped.
\<close>

definition refreshSessions ::
  "config \<Rightarrow> string list option \<Rightarrow> bool \<Rightarrow> int \<Rightarrow> int \<Rightarrow> string + Session list
   \<Rightarrow> sessionMap \<Rightarrow> (sessionMap \<times> backend_call list) option" where
  "refreshSessions cfg currentWindow force now now' enumerated sm =
     (if \<not> force \<and> now < lastSessionRefresh sm + minTimeBetweenSessionRefreshes
      then Some (sm, [])
      else
        (case clear sm of (sm1, released) \<Rightarrow>
           (case getAndAddSessions cfg currentWindow now' enumerated sm1 of
              None \<Rightarrow> None
            | Some (sm2, err) \<Rightarrow> Some (sm2, map Release released @ [GetAllSessions]))))"

text \<open>
  \<open>handleSliderMoveEvent\<close> starts one goroutine for every session it finds.  A goroutine
  is modelled by the calls it makes: \<open>SetVolume\<close> once, and, when that fails, the start
  of the delayed forced refresh.  \<open>setVolumeFails\<close> tells which calls fail.  The function
  itself returns nothing; its result here is the list of calls of its goroutines, in the
  order in which they were started.
\<close>

definition volumeTask ::
  "(Session \<Rightarrow> float32 \<Rightarrow> bool) \<Rightarrow> Session \<Rightarrow> float32 \<Rightarrow> backend_call list" where
  "volumeTask setVolumeFails s volume =
     (if setVolumeFails s volume
      then [SetVolume s volume, DelayedRefresh 100 True]
      else [SetVolume s volume])"

definition handleSliderMoveEvent ::
  "config \<Rightarrow> string list option \<Rightarrow> (Session \<Rightarrow> float32 \<Rightarrow> bool) \<Rightarrow> sessionMap
   \<Rightarrow> SliderMoveEvent \<Rightarrow> backend_call list" where
  "handleSliderMoveEvent cfg currentWindow setVolumeFails sm event =
     (case map_of (SliderMapping cfg) (SliderID event) of
        None \<Rightarrow> []
      | Some targets \<Rightarrow>
          concat (map (\<lambda>target.
            concat (map (\<lambda>resolvedTarget.
              (case get sm resolvedTarget of
                 None \<Rightarrow> []
               | Some sessions \<Rightarrow>
                   concat (map (\<lambda>session.
                     volumeTask setVolumeFails session (PercentValue event)) sessions)))
              (resolveTarget currentWindow sm target)))
            targets))"


subsection \<open>Notions used to state the properties of the session map\<close>




text \<open>The sessions that an event reaches: those stored under the keys to which the
  targets of its slider resolve.\<close>

definition matchedSessions ::
  "config \<Rightarrow> string list option \<Rightarrow> sessionMap \<Rightarrow> SliderMoveEvent \<Rightarrow> Session list" where
  "matchedSessions cfg currentWindow sm event =
     (case map_of (SliderMapping cfg) (SliderID event) of
        None \<Rightarrow> []
      | Some targets \<Rightarrow>
          concat (map (\<lambda>target.
            concat (map (\<lambda>resolvedTarget.
              (case get sm resolvedTarget of None \<Rightarrow> [] | Some sessions \<Rightarrow> sessions))
              (resolveTarget currentWindow sm target)))
            targets))"

text \<open>The \<open>SetVolume\<close> calls and the delayed refreshes among a list of calls.\<close>

definition setVolumeCalls :: "backend_call list \<Rightarrow> (Session \<times> float32) list" where
  "setVolumeCalls calls =
     concat (map (\<lambda>c. case c of SetVolume s v \<Rightarrow> [(s, v)] | _ \<Rightarrow> []) calls)"

definition delayedRefreshes :: "backend_call list \<Rightarrow> backend_call list" where
  "delayedRefreshes calls =
     filter (\<lambda>c. case c of DelayedRefresh d f \<Rightarrow> True | _ \<Rightarrow> False) calls"

text \<open>Concrete sessions and mappings for the examples below.\<close>

definition chromeSession :: Session where
  "chromeSession = \<lparr>handle = 1, Key = ''chrome.exe''\<rparr>"

definition spotifySession :: Session where
  "spotifySession = \<lparr>handle = 2, Key = ''spotify.exe''\<rparr>"

definition chromeConfig :: config where
  "chromeConfig = \<lparr>InvertSliders = False, NoiseReductionLevel = ''default'',
                   SliderMapping = [(0, [''master'']), (1, [''chrome.exe''])]\<rparr>"


definition emptySessionMap :: sessionMap where
  "emptySessionMap = \<lparr>m = [], lastSessionRefresh = 0, unmappedSessions = []\<rparr>"

definition chromeAndUnmappedConfig :: config where
  "chromeAndUnmappedConfig = \<lparr>InvertSliders = False, NoiseReductionLevel = ''default'',
       SliderMapping = [(0, [''master'']), (1, [''chrome.exe'', ''deej.unmapped''])]\<rparr>"

definition refreshedSessionMap :: sessionMap where
  "refreshedSessionMap =
     \<lparr>m = [(''chrome.exe'', [chromeSession]), (''spotify.exe'', [spotifySession])],
        lastSessionRefresh = 1, unmappedSessions = [spotifySession]\<rparr>"

text \<open>An audio backend on which \<open>SetVolume\<close> fails for the sessions of chrome.exe.\<close>

definition chromeFails :: "Session \<Rightarrow> float32 \<Rightarrow> bool" where
  "chromeFails s volume = (Key s = ''chrome.exe'')"

section \<open>Properties of the line handler and the slider tracker\<close>

lemma Split_nonempty: "Split sep s \<noteq> []"
  by (induction s) (auto split: list.splits)

lemma upt_0_Suc_shift: "[0..<Suc n] = 0 # map Suc [0..<n]"
  by (simp add: upt_conv_Cons map_Suc_upt del: upt_Suc)

lemma sliderLoop_step:
  assumes "sliderIdx < length cur" and "\<not> (sliderIdx = 0 \<and> 1023 < Atoi f)"
  shows "sliderLoop nz sd cfg sliderIdx (f # fs) cur evs =
     (if slotChanged sd cfg (cur ! sliderIdx) (readingScalar nz cfg f)
      then sliderLoop nz sd cfg (Suc sliderIdx) fs (cur[sliderIdx := readingScalar nz cfg f])
             (evs @ [\<lparr>SliderID = int sliderIdx, PercentValue = readingScalar nz cfg f\<rparr>])
      else sliderLoop nz sd cfg (Suc sliderIdx) fs cur evs)"
  using assms by (auto simp add: Let_def readingScalar_def slotChanged_def)

lemma sliderLoop_Completed:
  assumes "sliderIdx + length fs \<le> length cur"
    and "sliderIdx = 0 \<longrightarrow> fs = [] \<or> Atoi (hd fs) \<le> 1023"
  shows "sliderLoop nz sd cfg sliderIdx fs cur evs =
     Completed
       (map (\<lambda>j. if sliderIdx \<le> j \<and> j < sliderIdx + length fs
                     \<and> slotChanged sd cfg (cur ! j) (readingScalar nz cfg (fs ! (j - sliderIdx)))
                  then readingScalar nz cfg (fs ! (j - sliderIdx)) else cur ! j)
            [0..<length cur])
       (evs @ map (\<lambda>k. \<lparr>SliderID = int (sliderIdx + k),
                         PercentValue = readingScalar nz cfg (fs ! k)\<rparr>)
                (filter (\<lambda>k. slotChanged sd cfg (cur ! (sliderIdx + k))
                                 (readingScalar nz cfg (fs ! k)))
                        [0..<length fs]))"
  using assms
proof (induction fs arbitrary: sliderIdx cur evs)
  case Nil
  then show ?case by (auto intro: nth_equalityI)
next
  case (Cons f fs)
  let ?v = "readingScalar nz cfg f"
  have len: "sliderIdx < length cur" using Cons.prems(1) by simp
  have ok: "\<not> (sliderIdx = 0 \<and> 1023 < Atoi f)" using Cons.prems(2) by auto
  note step = sliderLoop_step[OF len ok, of nz sd cfg fs evs]
  show ?case
  proof (cases "slotChanged sd cfg (cur ! sliderIdx) ?v")
    case True
    let ?cur = "cur[sliderIdx := ?v]"
    have p1: "Suc sliderIdx + length fs \<le> length ?cur" using Cons.prems(1) by simp
    have ih: "sliderLoop nz sd cfg (Suc sliderIdx) fs ?cur
        (evs @ [\<lparr>SliderID = int sliderIdx, PercentValue = ?v\<rparr>]) = Completed
       (map (\<lambda>j. if Suc sliderIdx \<le> j \<and> j < Suc sliderIdx + length fs
                     \<and> slotChanged sd cfg (?cur ! j) (readingScalar nz cfg (fs ! (j - Suc sliderIdx)))
                  then readingScalar nz cfg (fs ! (j - Suc sliderIdx)) else ?cur ! j)
            [0..<length ?cur])
       ((evs @ [\<lparr>SliderID = int sliderIdx, PercentValue = ?v\<rparr>])
          @ map (\<lambda>k. \<lparr>SliderID = int (Suc sliderIdx + k),
                         PercentValue = readingScalar nz cfg (fs ! k)\<rparr>)
                (filter (\<lambda>k. slotChanged sd cfg (?cur ! (Suc sliderIdx + k))
                                 (readingScalar nz cfg (fs ! k)))
                        [0..<length fs]))"
      by (rule Cons.IH[OF p1]) simp
    have c: "map (\<lambda>j. if Suc sliderIdx \<le> j \<and> j < Suc sliderIdx + length fs
                     \<and> slotChanged sd cfg (?cur ! j) (readingScalar nz cfg (fs ! (j - Suc sliderIdx)))
                  then readingScalar nz cfg (fs ! (j - Suc sliderIdx)) else ?cur ! j)
            [0..<length ?cur]
          = map (\<lambda>j. if sliderIdx \<le> j \<and> j < sliderIdx + length (f # fs)
                     \<and> slotChanged sd cfg (cur ! j) (readingScalar nz cfg ((f # fs) ! (j - sliderIdx)))
                  then readingScalar nz cfg ((f # fs) ! (j - sliderIdx)) else cur ! j)
            [0..<length cur]"
      using True len by (auto simp add: nth_list_update Suc_diff_Suc less_Suc_eq_le nth_Cons')
    have e: "filter (\<lambda>k. slotChanged sd cfg (cur ! (sliderIdx + k))
                                 (readingScalar nz cfg ((f # fs) ! k))) [0..<length (f # fs)]
           = 0 # map Suc (filter (\<lambda>k. slotChanged sd cfg (?cur ! (Suc sliderIdx + k))
                                 (readingScalar nz cfg (fs ! k))) [0..<length fs])"
      using True by (simp add: upt_0_Suc_shift filter_map comp_def del: upt_Suc)
    show ?thesis unfolding step ih c e using True by (simp add: comp_def)
  next
    case False
    have p1: "Suc sliderIdx + length fs \<le> length cur" using Cons.prems(1) by simp
    have ih: "sliderLoop nz sd cfg (Suc sliderIdx) fs cur evs = Completed
       (map (\<lambda>j. if Suc sliderIdx \<le> j \<and> j < Suc sliderIdx + length fs
                     \<and> slotChanged sd cfg (cur ! j) (readingScalar nz cfg (fs ! (j - Suc sliderIdx)))
                  then readingScalar nz cfg (fs ! (j - Suc sliderIdx)) else cur ! j)
            [0..<length cur])
       (evs @ map (\<lambda>k. \<lparr>SliderID = int (Suc sliderIdx + k),
                         PercentValue = readingScalar nz cfg (fs ! k)\<rparr>)
                (filter (\<lambda>k. slotChanged sd cfg (cur ! (Suc sliderIdx + k))
                                 (readingScalar nz cfg (fs ! k)))
                        [0..<length fs]))"
      by (rule Cons.IH[OF p1]) simp
    have c: "map (\<lambda>j. if Suc sliderIdx \<le> j \<and> j < Suc sliderIdx + length fs
                     \<and> slotChanged sd cfg (cur ! j) (readingScalar nz cfg (fs ! (j - Suc sliderIdx)))
                  then readingScalar nz cfg (fs ! (j - Suc sliderIdx)) else cur ! j)
            [0..<length cur]
          = map (\<lambda>j. if sliderIdx \<le> j \<and> j < sliderIdx + length (f # fs)
                     \<and> slotChanged sd cfg (cur ! j) (readingScalar nz cfg ((f # fs) ! (j - sliderIdx)))
                  then readingScalar nz cfg ((f # fs) ! (j - sliderIdx)) else cur ! j)
            [0..<length cur]"
      using False len by (auto simp add: Suc_diff_Suc less_Suc_eq_le nth_Cons')
    have e: "filter (\<lambda>k. slotChanged sd cfg (cur ! (sliderIdx + k))
                                 (readingScalar nz cfg ((f # fs) ! k))) [0..<length (f # fs)]
           = map Suc (filter (\<lambda>k. slotChanged sd cfg (cur ! (Suc sliderIdx + k))
                                 (readingScalar nz cfg (fs ! k))) [0..<length fs])"
      using False by (simp add: upt_0_Suc_shift filter_map comp_def del: upt_Suc)
    show ?thesis unfolding step ih c e using False by (simp add: comp_def)
  qed
qed



lemma sliderLoop_first_above_1023:
  "1023 < Atoi stringValue \<Longrightarrow> sliderLoop nz sd cfg 0 (stringValue # rest) cur evs = Discarded"
  by simp

lemma sliderLoop_accepted:
  assumes "length fs \<le> length cur" and "fs = [] \<or> Atoi (hd fs) \<le> 1023"
  shows "sliderLoop nz sd cfg 0 fs cur [] =
     Completed
       (map (\<lambda>j. if j < length fs \<and> slotChanged sd cfg (cur ! j) (readingScalar nz cfg (fs ! j))
                  then readingScalar nz cfg (fs ! j) else cur ! j)
            [0..<length cur])
       (map (moveEvent nz cfg fs)
            (filter (\<lambda>k. slotChanged sd cfg (cur ! k) (readingScalar nz cfg (fs ! k)))
                    [0..<length fs]))"
proof -
  have "sliderLoop nz sd cfg 0 fs cur [] =
     Completed
       (map (\<lambda>j. if 0 \<le> j \<and> j < 0 + length fs
                     \<and> slotChanged sd cfg (cur ! j) (readingScalar nz cfg (fs ! (j - 0)))
                  then readingScalar nz cfg (fs ! (j - 0)) else cur ! j)
            [0..<length cur])
       ([] @ map (\<lambda>k. \<lparr>SliderID = int (0 + k),
                         PercentValue = readingScalar nz cfg (fs ! k)\<rparr>)
                (filter (\<lambda>k. slotChanged sd cfg (cur ! (0 + k))
                                 (readingScalar nz cfg (fs ! k)))
                        [0..<length fs]))"
    by (rule sliderLoop_Completed) (use assms in auto)
  then show ?thesis by (simp add: moveEvent_def)
qed

lemma sliderLoop_all_unset:
  assumes "fs = [] \<or> Atoi (hd fs) \<le> 1023"
  shows "sliderLoop nz sd cfg 0 fs (replicate (length fs) (- 1)) [] =
     Completed (map (readingScalar nz cfg) fs) (map (moveEvent nz cfg fs) [0..<length fs])"
proof -
  have f: "filter (\<lambda>k. slotChanged sd cfg (replicate (length fs) (- 1) ! k)
                          (readingScalar nz cfg (fs ! k))) [0..<length fs] = [0..<length fs]"
    by (rule filter_True) (simp add: slotChanged_def)
  have c: "map (\<lambda>j. if j < length fs
                       \<and> slotChanged sd cfg (replicate (length fs) (- 1) ! j)
                            (readingScalar nz cfg (fs ! j))
                    then readingScalar nz cfg (fs ! j) else replicate (length fs) (- 1) ! j)
               [0..<length (replicate (length fs) (- 1 :: float32))]
           = map (readingScalar nz cfg) fs"
    by (rule nth_equalityI) (simp_all add: slotChanged_def)
  show ?thesis
    using sliderLoop_accepted[of fs "replicate (length fs) (- 1)" nz sd cfg] assms
    unfolding f c by simp
qed

lemma processSliderData_discard:
  assumes "1023 < Atoi (hd (Split (CHR ''|'') sliderData))"
  shows "processSliderData nz sd cfg sio sliderData =
           Some (resetIfCountChanged sio (length (Split (CHR ''|'') sliderData)), [])"
proof -
  obtain f rest where sp: "Split (CHR ''|'') sliderData = f # rest"
    using Split_nonempty[of "CHR ''|''" sliderData] by (cases "Split (CHR ''|'') sliderData") auto
  have "sliderLoop nz sd cfg 0 (f # rest)
          (currentSliderPercentValues (resetIfCountChanged sio (length (f # rest)))) [] = Discarded"
    using assms sp by (intro sliderLoop_first_above_1023) simp
  then show ?thesis by (simp add: processSliderData_def sp Let_def)
qed

lemma processSliderData_resync:
  assumes "int (length (Split (CHR ''|'') sliderData)) \<noteq> lastKnownNumSliders sio"
    and "Atoi (hd (Split (CHR ''|'') sliderData)) \<le> 1023"
  shows "processSliderData nz sd cfg sio sliderData =
           Some (sio\<lparr>lastKnownNumSliders := int (length (Split (CHR ''|'') sliderData)),
                     currentSliderPercentValues :=
                       map (readingScalar nz cfg) (Split (CHR ''|'') sliderData),
                     sliderMoveConsumers :=
                       deliver (sliderMoveConsumers sio)
                         (map (moveEvent nz cfg (Split (CHR ''|'') sliderData))
                              [0..<length (Split (CHR ''|'') sliderData)])\<rparr>,
                 map (moveEvent nz cfg (Split (CHR ''|'') sliderData))
                     [0..<length (Split (CHR ''|'') sliderData)])"
proof -
  let ?fs = "Split (CHR ''|'') sliderData"
  have r: "resetIfCountChanged sio (length ?fs) =
             sio\<lparr>lastKnownNumSliders := int (length ?fs),
                  currentSliderPercentValues := replicate (length ?fs) (- 1)\<rparr>"
    using assms(1) by (simp add: resetIfCountChanged_def)
  have l: "sliderLoop nz sd cfg 0 ?fs (replicate (length ?fs) (- 1)) [] =
     Completed (map (readingScalar nz cfg) ?fs) (map (moveEvent nz cfg ?fs) [0..<length ?fs])"
    using assms(2) by (intro sliderLoop_all_unset) simp
  show ?thesis by (simp add: processSliderData_def Let_def r l)
qed

lemma processSliderData_all_unset:
  assumes "lastKnownNumSliders sio = int (length (Split (CHR ''|'') sliderData))"
    and "currentSliderPercentValues sio = replicate (length (Split (CHR ''|'') sliderData)) (- 1)"
    and "Atoi (hd (Split (CHR ''|'') sliderData)) \<le> 1023"
  shows "processSliderData nz sd cfg sio sliderData =
           Some (sio\<lparr>currentSliderPercentValues :=
                       map (readingScalar nz cfg) (Split (CHR ''|'') sliderData),
                     sliderMoveConsumers :=
                       deliver (sliderMoveConsumers sio)
                         (map (moveEvent nz cfg (Split (CHR ''|'') sliderData))
                              [0..<length (Split (CHR ''|'') sliderData)])\<rparr>,
                 map (moveEvent nz cfg (Split (CHR ''|'') sliderData))
                     [0..<length (Split (CHR ''|'') sliderData)])"
proof -
  let ?fs = "Split (CHR ''|'') sliderData"
  have r: "resetIfCountChanged sio (length ?fs) = sio"
    using assms(1) by (simp add: resetIfCountChanged_def)
  have l: "sliderLoop nz sd cfg 0 ?fs (replicate (length ?fs) (- 1)) [] =
     Completed (map (readingScalar nz cfg) ?fs) (map (moveEvent nz cfg ?fs) [0..<length ?fs])"
    using assms(3) by (intro sliderLoop_all_unset) simp
  show ?thesis by (simp add: processSliderData_def Let_def r l assms(2))
qed

text \<open>
  C5.  A payload whose first field parses to an integer above 1023 is discarded:
  \<open>processSliderData\<close> returns without a move event, and no consumer channel receives
  anything.
\<close>

theorem first_field_above_1023_discards_frame:
  assumes "1023 < Atoi (hd (Split (CHR ''|'') sliderData))"
  shows "\<exists>sio'. processSliderData nz sd cfg sio sliderData = Some (sio', [])
               \<and> sliderMoveConsumers sio' = sliderMoveConsumers sio"
proof -
  have "sliderMoveConsumers (resetIfCountChanged sio (length (Split (CHR ''|'') sliderData)))
          = sliderMoveConsumers sio"
    by (simp add: resetIfCountChanged_def)
  then show ?thesis using processSliderData_discard[OF assms] by blast
qed

theorem first_field_above_1023_discards_frame_witness:
  "1023 < Atoi (hd (Split (CHR ''|'') ''4558|925|41''))
   \<and> (\<exists>sio'. processSliderData (NormalizeScalar (1 / 100))
                (SignificantlyDifferent exampleThreshold) defaultConfig
                (SubscribeToSliderMoveEvents NewSerialIO) ''4558|925|41'' = Some (sio', [])
             \<and> sliderMoveConsumers sio'
                 = sliderMoveConsumers (SubscribeToSliderMoveEvents NewSerialIO))"
proof -
  have h: "1023 < Atoi (hd (Split (CHR ''|'') ''4558|925|41''))" by code_simp
  show ?thesis
    using h first_field_above_1023_discards_frame[OF h, of "NormalizeScalar (1 / 100)"
        "SignificantlyDifferent exampleThreshold" defaultConfig
        "SubscribeToSliderMoveEvents NewSerialIO"]
    by blast
qed





lemma TrimRight_no_trailing: "trailingSpace (TrimRight s) = 0"
proof (induction s rule: TrimRight.induct)
  case (1 s)
  show ?case
  proof (cases "0 < trailingSpace s")
    case True
    with 1 show ?thesis by (simp add: TrimRight.simps[of s])
  next
    case False
    then show ?thesis by (simp add: TrimRight.simps[of s])
  qed
qed

lemma TrimSpace_last_not_space:
  assumes "TrimSpace s \<noteq> []"
  shows "\<not> isSpace (last (TrimSpace s))"
proof
  assume "isSpace (last (TrimSpace s))"
  with assms have "trailingSpace (TrimSpace s) = 1" by (simp add: trailingSpace_def)
  moreover have "trailingSpace (TrimSpace s) = 0"
    unfolding TrimSpace_def by (rule TrimRight_no_trailing)
  ultimately show False by simp
qed

lemma expectedLinePattern_ends_with_LF:
  assumes "expectedLinePattern s"
  shows "s \<noteq> [] \<and> last s = LF"
proof -
  from assms have len: "2 \<le> length s" and d: "drop (length s - 2) s = [CR, LF]"
    by (simp_all add: expectedLinePattern_def)
  from len have ne: "s \<noteq> []" by auto
  have "last s = last (drop (length s - 2) s)" using len by (simp add: last_drop)
  then show ?thesis using ne d by simp
qed

lemma trimmed_line_never_matches: "\<not> expectedLinePattern (TrimSpace rawLine)"
proof
  assume a: "expectedLinePattern (TrimSpace rawLine)"
  then have ne: "TrimSpace rawLine \<noteq> []" and l: "last (TrimSpace rawLine) = LF"
    using expectedLinePattern_ends_with_LF by blast+
  have "isSpace LF" by (simp add: isSpace_def LF_def)
  then show False using TrimSpace_last_not_space[OF ne] l by simp
qed

text \<open>
  Hence a line that does not start with \<open>deej:\<close> never reaches \<open>processSliderData\<close>:
  it changes nothing in the tracker and moves no slider.
\<close>

lemma handleLine_without_deej_prefix:
  assumes "\<not> HasPrefix (TrimSpace rawLine) ''deej:''"
  shows "\<exists>effs. handleLine nz sd cfg sio rawLine = Some (sio, effs)
           \<and> (\<forall>e. SliderMoved e \<notin> set effs)"
  using assms trimmed_line_never_matches[of rawLine]
  by (auto simp add: handleLine_def Let_def)

text \<open>
  C1.  The legacy bare line \<open>512|1023|0\<close> terminated by CR LF produces no move event and
  leaves the tracker as it was, because \<open>handleLine\<close> trims the line before matching it
  against a pattern that demands the trailing CR LF.  The framed message with the same
  readings, on a tracker that has seen no frame yet, emits the three events.
\<close>

theorem legacy_bare_line_is_dropped:
  "handleLine nz sd cfg sio (''512|1023|0'' @ [CR, LF]) = Some (sio, [])
   \<and> (\<exists>sio'. handleLine nz sd cfg NewSerialIO (''deej:v2.0:sliders:512|1023|0'' @ [CR, LF])
         = Some (sio', map SliderMoved
                         (map (moveEvent nz cfg [''512'', ''1023'', ''0'']) [0, 1, 2])))"
proof
  have t: "TrimSpace (''512|1023|0'' @ [CR, LF]) = ''512|1023|0''"
    by code_simp
  have p: "\<not> expectedLinePattern ''512|1023|0''"
    using trimmed_line_never_matches[of "''512|1023|0'' @ [CR, LF]"] unfolding t .
  show "handleLine nz sd cfg sio (''512|1023|0'' @ [CR, LF]) = Some (sio, [])"
    unfolding handleLine_def t using p by (simp add: HasPrefix_def Let_def)
next
  have t: "TrimSpace (''deej:v2.0:sliders:512|1023|0'' @ [CR, LF]) = ''deej:v2.0:sliders:512|1023|0''"
    by code_simp
  have s: "Split (CHR '':'') ''deej:v2.0:sliders:512|1023|0''
             = [''deej'', ''v2.0'', ''sliders'', ''512|1023|0'']"
    by simp
  have f: "Split (CHR ''|'') ''512|1023|0'' = [''512'', ''1023'', ''0'']" by simp
  have a: "Atoi (hd (Split (CHR ''|'') ''512|1023|0'')) \<le> 1023"
    unfolding f by (simp add: Atoi_def isDigit_def digitsValue_def)
  have n: "int (length (Split (CHR ''|'') ''512|1023|0'')) \<noteq> lastKnownNumSliders NewSerialIO"
    unfolding f by (simp add: NewSerialIO_def)
  have u: "[0..<length [''512'', ''1023'', ''0'']] = [0, 1, 2]"
    by (simp add: upt_rec)
  note r = processSliderData_resync[OF n a, of nz sd cfg, unfolded f u]
  show "\<exists>sio'. handleLine nz sd cfg NewSerialIO (''deej:v2.0:sliders:512|1023|0'' @ [CR, LF])
         = Some (sio', map SliderMoved
                         (map (moveEvent nz cfg [''512'', ''1023'', ''0'']) [0, 1, 2]))"
    unfolding handleLine_def t s by (simp add: HasPrefix_def Let_def r)
qed




lemma fields_512_1023_0: "Split (CHR ''|'') ''512|1023|0'' = [''512'', ''1023'', ''0'']"
  by simp

lemma Atoi_512: "Atoi ''512'' = 512"
  by (simp add: Atoi_def isDigit_def digitsValue_def)

lemma Atoi_1023: "Atoi ''1023'' = 1023"
  by (simp add: Atoi_def isDigit_def digitsValue_def)

lemma Atoi_0: "Atoi ''0'' = 0"
  by (simp add: Atoi_def isDigit_def digitsValue_def)

lemma events_512_1023_0:
  assumes "eps < 1 / 4"
  shows "map (moveEvent (NormalizeScalar eps) cfg [''512'', ''1023'', ''0'']) [0, 1, 2] =
           (if InvertSliders cfg
            then [\<lparr>SliderID = 0, PercentValue = 511 / 1023\<rparr>,
                  \<lparr>SliderID = 1, PercentValue = 0\<rparr>,
                  \<lparr>SliderID = 2, PercentValue = 1\<rparr>]
            else [\<lparr>SliderID = 0, PercentValue = 512 / 1023\<rparr>,
                  \<lparr>SliderID = 1, PercentValue = 1\<rparr>,
                  \<lparr>SliderID = 2, PercentValue = 0\<rparr>])"
  using assms
  by (simp add: moveEvent_def readingScalar_def Atoi_512 Atoi_1023 Atoi_0 NormalizeScalar_def)

text \<open>
  C4.  On a frame that finds every slot unset (the count differs from 3, or the three
  slots hold the sentinel), the payload \<open>512|1023|0\<close> emits three events: without
  inversion the values 512/1023, 1 and 0, with inversion 511/1023, 0 and 1.  Both
  512/1023 and 511/1023 lie within one thousandth of 0.5.  \<open>eps\<close> is the deadzone of
  \<open>NormalizeScalar\<close>, any value below 1/4.
\<close>

theorem first_frame_512_1023_0:
  assumes "eps < 1 / 4"
    and "lastKnownNumSliders sio \<noteq> 3
         \<or> (lastKnownNumSliders sio = 3 \<and> currentSliderPercentValues sio = [- 1, - 1, - 1])"
  shows "(\<exists>sio'. processSliderData (NormalizeScalar eps) sd cfg sio ''512|1023|0'' =
            Some (sio',
              if InvertSliders cfg
              then [\<lparr>SliderID = 0, PercentValue = 511 / 1023\<rparr>,
                    \<lparr>SliderID = 1, PercentValue = 0\<rparr>,
                    \<lparr>SliderID = 2, PercentValue = 1\<rparr>]
              else [\<lparr>SliderID = 0, PercentValue = 512 / 1023\<rparr>,
                    \<lparr>SliderID = 1, PercentValue = 1\<rparr>,
                    \<lparr>SliderID = 2, PercentValue = 0\<rparr>]))
         \<and> \<bar>512 / 1023 - 1 / 2 :: float32\<bar> < 1 / 1000
         \<and> \<bar>511 / 1023 - 1 / 2 :: float32\<bar> < 1 / 1000"
proof -
  let ?fs = "Split (CHR ''|'') ''512|1023|0''"
  have len: "length ?fs = 3" by (simp add: fields_512_1023_0)
  have acc: "Atoi (hd ?fs) \<le> 1023" by (simp add: fields_512_1023_0 Atoi_512)
  have "\<exists>sio'. processSliderData (NormalizeScalar eps) sd cfg sio ''512|1023|0'' =
            Some (sio', map (moveEvent (NormalizeScalar eps) cfg ?fs) [0..<length ?fs])"
  proof (cases "lastKnownNumSliders sio = 3")
    case False
    then have "int (length ?fs) \<noteq> lastKnownNumSliders sio" using len by simp
    from processSliderData_resync[OF this acc] show ?thesis by blast
  next
    case True
    with assms(2) have cur: "currentSliderPercentValues sio = replicate (length ?fs) (- 1)"
      by (simp add: len numeral_3_eq_3)
    have lk: "lastKnownNumSliders sio = int (length ?fs)" using True len by simp
    from processSliderData_all_unset[OF lk cur acc] show ?thesis by blast
  qed
  then obtain sio' where
    "processSliderData (NormalizeScalar eps) sd cfg sio ''512|1023|0'' =
       Some (sio', map (moveEvent (NormalizeScalar eps) cfg ?fs) [0..<length ?fs])"
    by blast
  moreover have idx: "[0..<length [''512'', ''1023'', ''0'']] = [0, 1, 2]"
    by (simp add: upt_rec numeral_2_eq_2)
  ultimately have "processSliderData (NormalizeScalar eps) sd cfg sio ''512|1023|0'' =
       Some (sio',
              if InvertSliders cfg
              then [\<lparr>SliderID = 0, PercentValue = 511 / 1023\<rparr>,
                    \<lparr>SliderID = 1, PercentValue = 0\<rparr>,
                    \<lparr>SliderID = 2, PercentValue = 1\<rparr>]
              else [\<lparr>SliderID = 0, PercentValue = 512 / 1023\<rparr>,
                    \<lparr>SliderID = 1, PercentValue = 1\<rparr>,
                    \<lparr>SliderID = 2, PercentValue = 0\<rparr>])"
    by (simp only: fields_512_1023_0 idx events_512_1023_0[OF assms(1)])
  then show ?thesis by simp
qed

theorem first_frame_512_1023_0_witness:
  "(1 / 100 :: float32) < 1 / 4
   \<and> lastKnownNumSliders NewSerialIO \<noteq> 3
   \<and> (\<exists>sio'. processSliderData (NormalizeScalar (1 / 100))
                (SignificantlyDifferent exampleThreshold) defaultConfig NewSerialIO ''512|1023|0''
              = Some (sio', [\<lparr>SliderID = 0, PercentValue = 512 / 1023\<rparr>,
                             \<lparr>SliderID = 1, PercentValue = 1\<rparr>,
                             \<lparr>SliderID = 2, PercentValue = 0\<rparr>]))
   \<and> (\<exists>sio'. processSliderData (NormalizeScalar (1 / 100))
                (SignificantlyDifferent exampleThreshold) invertedConfig NewSerialIO ''512|1023|0''
              = Some (sio', [\<lparr>SliderID = 0, PercentValue = 511 / 1023\<rparr>,
                             \<lparr>SliderID = 1, PercentValue = 0\<rparr>,
                             \<lparr>SliderID = 2, PercentValue = 1\<rparr>]))"
proof -
  have h1: "(1 / 100 :: float32) < 1 / 4" by simp
  have h2: "lastKnownNumSliders NewSerialIO \<noteq> 3
       \<or> (lastKnownNumSliders NewSerialIO = 3
           \<and> currentSliderPercentValues NewSerialIO = [- 1, - 1, - 1])"
    by (simp add: NewSerialIO_def)
  have i1: "\<not> InvertSliders defaultConfig" by (simp add: defaultConfig_def)
  have i2: "InvertSliders invertedConfig" by (simp add: invertedConfig_def)
  have h3: "lastKnownNumSliders NewSerialIO \<noteq> 3" by (simp add: NewSerialIO_def)
  show ?thesis
    using h1 h3
      first_frame_512_1023_0[OF h1 h2, of "SignificantlyDifferent exampleThreshold" defaultConfig]
      first_frame_512_1023_0[OF h1 h2, of "SignificantlyDifferent exampleThreshold" invertedConfig]
      i1 i2
    by simp
qed









section \<open>Properties of the session map\<close>

text \<open>
  C6.  A call \<open>refreshSessions(false)\<close> made less than five seconds
  (\<open>5 * 10^9\<close> nanoseconds) after \<open>lastSessionRefresh\<close> returns at once: no session is
  released, the backend is not asked for its sessions, and the session map, the
  unmapped sessions and the time of the last refresh stay as they are.
\<close>

theorem refresh_within_five_seconds_is_noop:
  assumes "now - lastSessionRefresh sm < 5 * 1000000000"
  shows "refreshSessions cfg currentWindow False now now' enumerated sm = Some (sm, [])"
  using assms by (simp add: refreshSessions_def minTimeBetweenSessionRefreshes_def)

theorem refresh_within_five_seconds_is_noop_witness:
  "(4999999999 :: int) - lastSessionRefresh emptySessionMap < 5 * 1000000000
   \<and> refreshSessions chromeConfig None False 4999999999 4999999999
        (Inr [chromeSession, spotifySession]) emptySessionMap
      = Some (emptySessionMap, [])"
proof -
  have h: "(4999999999 :: int) - lastSessionRefresh emptySessionMap < 5 * 1000000000"
    by (simp add: emptySessionMap_def)
  show ?thesis
    using h refresh_within_five_seconds_is_noop[OF h, of chromeConfig None 4999999999
        "Inr [chromeSession, spotifySession]"]
    by simp
qed










lemma setVolumeCalls_append:
  "setVolumeCalls (xs @ ys) = setVolumeCalls xs @ setVolumeCalls ys"
  by (simp add: setVolumeCalls_def)

lemma setVolumeCalls_concat:
  "setVolumeCalls (concat xss) = concat (map setVolumeCalls xss)"
  by (induction xss) (simp_all add: setVolumeCalls_append, simp add: setVolumeCalls_def)

lemma setVolumeCalls_volumeTask:
  "setVolumeCalls (volumeTask setVolumeFails s volume) = [(s, volume)]"
  by (simp add: setVolumeCalls_def volumeTask_def)

lemma setVolumeCalls_tasks:
  "setVolumeCalls (concat (map (\<lambda>s. volumeTask setVolumeFails s volume) sessions))
     = map (\<lambda>s. (s, volume)) sessions"
  by (induction sessions) (simp_all add: setVolumeCalls_append setVolumeCalls_volumeTask,
      simp add: setVolumeCalls_def)

lemma delayedRefreshes_append:
  "delayedRefreshes (xs @ ys) = delayedRefreshes xs @ delayedRefreshes ys"
  by (simp add: delayedRefreshes_def)

lemma delayedRefreshes_concat:
  "delayedRefreshes (concat xss) = concat (map delayedRefreshes xss)"
  by (induction xss) (simp_all add: delayedRefreshes_append, simp add: delayedRefreshes_def)

lemma delayedRefreshes_volumeTask:
  "delayedRefreshes (volumeTask setVolumeFails s volume)
     = (if setVolumeFails s volume then [DelayedRefresh 100 True] else [])"
  by (simp add: delayedRefreshes_def volumeTask_def)

lemma delayedRefreshes_tasks:
  "delayedRefreshes (concat (map (\<lambda>s. volumeTask setVolumeFails s volume) sessions))
     = replicate (length (filter (\<lambda>s. setVolumeFails s volume) sessions))
         (DelayedRefresh 100 True)"
  by (induction sessions) (simp_all add: delayedRefreshes_append delayedRefreshes_volumeTask,
      simp add: delayedRefreshes_def)

lemma length_tasks:
  "length (concat (map (\<lambda>s. volumeTask setVolumeFails s volume) sessions))
     = length sessions + length (filter (\<lambda>s. setVolumeFails s volume) sessions)"
  by (induction sessions) (simp_all add: volumeTask_def)

lemma concat_map_concat_map:
  "concat (map f (concat (map g xs))) = concat (map (\<lambda>x. concat (map f (g x))) xs)"
  by (induction xs) simp_all

text \<open>
  C8.  Whatever calls of \<open>SetVolume\<close> fail, \<open>handleSliderMoveEvent\<close> invokes
  \<open>SetVolume\<close> with the value of the event exactly once on every session found under
  the keys to which the targets of the slider resolve; every failing call starts one
  delayed refresh with \<open>force = true\<close> and a delay of 100 milliseconds, and nothing
  else.  The function has no result through which an error could reach the caller.
\<close>

theorem set_volume_failure_is_isolated:
  "setVolumeCalls (handleSliderMoveEvent cfg currentWindow setVolumeFails sm event)
     = map (\<lambda>s. (s, PercentValue event)) (matchedSessions cfg currentWindow sm event)
   \<and> delayedRefreshes (handleSliderMoveEvent cfg currentWindow setVolumeFails sm event)
     = replicate
         (length (filter (\<lambda>s. setVolumeFails s (PercentValue event))
                    (matchedSessions cfg currentWindow sm event)))
         (DelayedRefresh 100 True)
   \<and> length (handleSliderMoveEvent cfg currentWindow setVolumeFails sm event)
     = length (setVolumeCalls (handleSliderMoveEvent cfg currentWindow setVolumeFails sm event))
       + length (delayedRefreshes
                   (handleSliderMoveEvent cfg currentWindow setVolumeFails sm event))"
proof (intro conjI)
  let ?v = "PercentValue event"
  let ?task = "\<lambda>s. volumeTask setVolumeFails s ?v"
  let ?found = "\<lambda>k. case get sm k of None \<Rightarrow> [] | Some sessions \<Rightarrow> sessions"
  have key: "\<And>k. (case get sm k of None \<Rightarrow> []
                  | Some sessions \<Rightarrow> concat (map ?task sessions))
               = concat (map ?task (?found k))"
    by (simp split: option.splits)
  have h: "handleSliderMoveEvent cfg currentWindow setVolumeFails sm event
             = concat (map ?task (matchedSessions cfg currentWindow sm event))"
  proof (cases "map_of (SliderMapping cfg) (SliderID event)")
    case None
    then show ?thesis by (simp add: handleSliderMoveEvent_def matchedSessions_def)
  next
    case (Some targets)
    have "concat (map ?task (matchedSessions cfg currentWindow sm event))
            = concat (map (\<lambda>target. concat (map (\<lambda>k. concat (map ?task (?found k)))
                        (resolveTarget currentWindow sm target))) targets)"
      unfolding matchedSessions_def Some option.case
      by (simp only: concat_map_concat_map)
    then show ?thesis
      by (simp add: handleSliderMoveEvent_def Some key)
  qed
  show "setVolumeCalls (handleSliderMoveEvent cfg currentWindow setVolumeFails sm event)
     = map (\<lambda>s. (s, ?v)) (matchedSessions cfg currentWindow sm event)"
    unfolding h by (rule setVolumeCalls_tasks)
  show "delayedRefreshes (handleSliderMoveEvent cfg currentWindow setVolumeFails sm event)
     = replicate
         (length (filter (\<lambda>s. setVolumeFails s ?v)
                    (matchedSessions cfg currentWindow sm event)))
         (DelayedRefresh 100 True)"
    unfolding h by (rule delayedRefreshes_tasks)
  show "length (handleSliderMoveEvent cfg currentWindow setVolumeFails sm event)
     = length (setVolumeCalls (handleSliderMoveEvent cfg currentWindow setVolumeFails sm event))
       + length (delayedRefreshes
                   (handleSliderMoveEvent cfg currentWindow setVolumeFails sm event))"
    unfolding h setVolumeCalls_tasks delayedRefreshes_tasks
    by (simp add: length_tasks)
qed

theorem set_volume_failure_is_isolated_witness:
  "setVolumeCalls
     (handleSliderMoveEvent chromeAndUnmappedConfig None chromeFails refreshedSessionMap
        \<lparr>SliderID = 1, PercentValue = 1 / 2\<rparr>)
     = [(chromeSession, 1 / 2), (spotifySession, 1 / 2)]
   \<and> delayedRefreshes
       (handleSliderMoveEvent chromeAndUnmappedConfig None chromeFails refreshedSessionMap
          \<lparr>SliderID = 1, PercentValue = 1 / 2\<rparr>)
     = [DelayedRefresh 100 True]"
proof -
  have ms: "matchedSessions chromeAndUnmappedConfig None refreshedSessionMap
              \<lparr>SliderID = 1, PercentValue = 1 / 2\<rparr> = [chromeSession, spotifySession]"
    by code_simp
  have f1: "chromeFails chromeSession (1 / 2)"
    by (simp add: chromeFails_def chromeSession_def)
  have f2: "\<not> chromeFails spotifySession (1 / 2)"
    by (simp add: chromeFails_def spotifySession_def)
  show ?thesis
    using set_volume_failure_is_isolated[of chromeAndUnmappedConfig None chromeFails
        refreshedSessionMap "\<lparr>SliderID = 1, PercentValue = 1 / 2\<rparr>"]
    unfolding ms by (simp add: f1 f2)
qed

end
